theory Spec2Isabelle
  imports Complex_Main
begin

section \<open>Python values and errors\<close>

text \<open>
  The exceptions the modelled code raises. \<open>RuntimeError\<close> is what \<open>torch.cat\<close>
  raises when the tensors it is given disagree in a dimension other than the one they are
  joined along. \<open>Exception\<close> carries its message. \<open>EmptyHistoryError\<close> is the error the
  specification names for the best-response tracker.
\<close>

datatype error =
  ValueError
  | TypeError
  | RuntimeError
  | Exception string
  | EmptyHistoryError

text \<open>
  The Python objects \<open>covars\<close> can be. The payload of a float is of the number type
  \<open>'a\<close> of the tensors.
\<close>

datatype 'a pyval =
  PyNone
  | PyBool bool
  | PyInt int
  | PyFloat 'a
  | PyStr string
  | PyTuple "'a pyval list"
  | PyList "'a pyval list"

section \<open>Slices and the tensor operations of the convergence check\<close>

text \<open>
  An index of a Python slice \<open>xs[start:stop]\<close> on a sequence of length \<open>n\<close>: a negative
  index counts from the end, and every index is clamped to \<open>0..n\<close>. \<open>-0\<close> is \<open>0\<close>, so
  \<open>xs[-0:]\<close> is the whole sequence.
\<close>

definition slice_index :: "nat \<Rightarrow> int \<Rightarrow> nat" where
  "slice_index n i = (if i < 0 then nat (max 0 (int n + i)) else min n (nat i))"

definition py_slice :: "'a list \<Rightarrow> int option \<Rightarrow> int option \<Rightarrow> 'a list" where
  "py_slice xs start stop =
     (let n = length xs;
          lo = (case start of None \<Rightarrow> 0 | Some i \<Rightarrow> slice_index n i);
          hi = (case stop of None \<Rightarrow> n | Some j \<Rightarrow> slice_index n j)
      in take (hi - lo) (drop lo xs))"

text \<open>
  \<open>self.best_response_value\<close> is a tensor of size \<open>num_obs X 1\<close>; it is the list of its
  rows' single entries. \<open>torch.cat((a, b), dim=1)\<close> of two such column tensors is the
  tensor of size \<open>rows X 2\<close> when both have the same number of rows, and raises
  \<open>RuntimeError\<close> otherwise (a tensor of size \<open>0 X 1\<close> is not skipped: only
  one-dimensional empty tensors are).
\<close>

definition torch_cat_dim1 :: "'a list \<Rightarrow> 'a list \<Rightarrow> error + ('a \<times> 'a) list" where
  "torch_cat_dim1 a b = (if length a = length b then Inr (zip a b) else Inl RuntimeError)"

text \<open>\<open>np.diff(t, axis=1)\<close> on a tensor of two columns: second column minus first.\<close>

definition np_diff_axis1 :: "('a::minus \<times> 'a) list \<Rightarrow> 'a list" where
  "np_diff_axis1 t = map (\<lambda>(earlier, later). later - earlier) t"

text \<open>
  Element-wise division of two column arrays. Where it is called both have the number of
  rows that \<open>torch.cat\<close> has just accepted, so nothing is broadcast. numpy raises no
  exception for a zero divisor; the quotient is whatever \<open>/\<close> of the number type gives.
\<close>

definition np_divide :: "('a::inverse) list \<Rightarrow> 'a list \<Rightarrow> 'a list" where
  "np_divide xs ys = map2 (\<lambda>x y. x / y) xs ys"

section \<open>The instance state of CreativeProject\<close>

text \<open>
  The attributes \<open>__init__\<close> sets; the dictionaries \<open>self.model\<close>, \<open>self.acq_func\<close>
  and \<open>self.sampling\<close> are flattened into fields, and \<open>covars_given\<close> is the
  hidden attribute \<open>self.__covars\<close>. \<open>'m\<close> is the type of the opaque
  objects of the modelling library (model, likelihood, marginal log-likelihood,
  acquisition function, response function). Tensors of two dimensions are lists of rows.
\<close>

record ('a, 'm) creative_project =
  initial_guess :: "'a list list"
  covar_bounds :: "'a list list"
  covars_given :: "'a pyval"
  model_type :: string
  model_obj :: "'m option"
  likelihood :: "'m option"
  loglikelihood :: "'m option"
  covars_proposed_iter :: nat
  covars_sampled_iter :: nat
  response_sampled_iter :: nat
  nu :: "'a option"
  acq_func_type :: string
  acq_func_object :: "'m option"
  sampling_method :: string
  sampling_response_func :: "'m option"
  train_X :: "'a list list option"
  train_Y :: "'a list option"
  best_response_value :: "'a list"
  covars_best_response_value :: "'a list list"

section \<open>The convergence check\<close>

text \<open>
  \<open>Validators.__continue_iterating_rel_tol_conditions(self, rel_tol, rel_tol_steps)\<close>.
  The method returns a bool or raises; it assigns to no attribute of \<open>self\<close>, and the
  arrays it computes on are new ones, so the state it returns is the state it was given.
\<close>

definition continue_iterating_rel_tol_conditions ::
  "('a::{minus,inverse,ord}, 'm) creative_project \<Rightarrow> 'a option \<Rightarrow> int option
     \<Rightarrow> (error + bool) \<times> ('a, 'm) creative_project" where
  "continue_iterating_rel_tol_conditions self rel_tol rel_tol_steps0 =
     (let rel_tol_steps =
            (if rel_tol \<noteq> None \<and> rel_tol_steps0 = None then Some 1 else rel_tol_steps0)
      in case (rel_tol, rel_tol_steps) of
           (Some r, Some k) \<Rightarrow>
             if int (length (best_response_value self)) \<ge> k then
               (case torch_cat_dim1
                       (py_slice (best_response_value self) (Some (- (k + 1))) (Some (- 1)))
                       (py_slice (best_response_value self) (Some (- k)) None) of
                  Inl e \<Rightarrow> (Inl e, self)
                | Inr tmp_array \<Rightarrow>
                    (let tmp_rel_diff =
                           np_divide (np_diff_axis1 tmp_array)
                             (py_slice (best_response_value self) (Some (- k)) None);
                         below_rel_tol = map (\<lambda>rel_dif. rel_dif < r) tmp_rel_diff
                     in if int (length (filter (\<lambda>b. b) below_rel_tol)) = k
                        then (Inr False, self) else (Inr True, self)))
             else (Inr True, self)
         | _ \<Rightarrow> (Inr True, self))"

text \<open>
  The specification's name for the operation: the boolean the check returns (or the
  error it raises) on an instance state.
\<close>

definition should_continue ::
  "('a::{minus,inverse,ord}, 'm) creative_project \<Rightarrow> 'a option \<Rightarrow> int option \<Rightarrow> error + bool" where
  "should_continue self rel_tol rel_tol_steps =
     fst (continue_iterating_rel_tol_conditions self rel_tol rel_tol_steps)"

section \<open>Validation of covars\<close>

text \<open>
  \<open>isinstance(entry, tuple)\<close> and \<open>isinstance(el, (float, int))\<close>. A Python bool is an
  instance of \<open>int\<close>.
\<close>

definition isinstance_tuple :: "'a pyval \<Rightarrow> bool" where
  "isinstance_tuple v = (case v of PyTuple _ \<Rightarrow> True | _ \<Rightarrow> False)"

definition isinstance_float_int :: "'a pyval \<Rightarrow> bool" where
  "isinstance_float_int v =
     (case v of PyFloat _ \<Rightarrow> True | PyInt _ \<Rightarrow> True | PyBool _ \<Rightarrow> True | _ \<Rightarrow> False)"

definition tuple_items :: "'a pyval \<Rightarrow> 'a pyval list" where
  "tuple_items v = (case v of PyTuple els \<Rightarrow> els | _ \<Rightarrow> [])"

text \<open>
  \<open>Validators.__validate_covars(self, covars)\<close>: \<open>ValueError\<close> for \<open>None\<close>,
  \<open>TypeError\<close> for anything that is not a list, for a list with an entry that is not a
  tuple, and (in a second pass over the entries) for a tuple with an element that is
  neither float nor int; otherwise \<open>True\<close>. It reads no attribute of \<open>self\<close>.
\<close>

definition validate_covars :: "'a pyval \<Rightarrow> error + bool" where
  "validate_covars covars =
     (case covars of
        PyNone \<Rightarrow> Inl ValueError
      | PyList entries \<Rightarrow>
          if \<not> list_all isinstance_tuple entries then Inl TypeError
          else if \<not> list_all (\<lambda>entry. list_all isinstance_float_int (tuple_items entry)) entries
          then Inl TypeError
          else Inr True
      | _ \<Rightarrow> Inl TypeError)"

section \<open>Construction and model set-up\<close>

text \<open>
  The keyword arguments \<open>__init__\<close> reads itself. \<open>train_X\<close> and \<open>train_Y\<close> go
  straight to \<open>__initialize_training_data\<close>.
\<close>

record 'a kwargs =
  kw_nu :: "'a option"

text \<open>
  \<open>CreativeProject.__init__(self, covars, model="SingleTaskGP", acq_func="EI", **kwargs)\<close>.
  The class \<open>Initializers\<close> is not part of the sources, so the outcomes of its three
  methods that \<open>__init__\<close> calls are parameters, each a result or the error raised:
  \<open>from_covars\<close> is what \<open>__initialize_from_covars(covars)\<close> returns (initial guess and
  bounds), \<open>training_data\<close> the attributes \<open>train_X\<close> and \<open>train_Y\<close> that
  \<open>__initialize_training_data\<close> sets, \<open>best_response\<close> the attributes
  \<open>best_response_value\<close> and \<open>covars_best_response_value\<close> that
  \<open>__initialize_best_response\<close> sets. \<open>__init__\<close> itself compares \<open>model\<close> and
  \<open>acq_func\<close> with nothing: it stores them.
\<close>

definition CreativeProject_init ::
  "error + 'a list list \<times> 'a list list \<Rightarrow> error + 'a list list option \<times> 'a list option
     \<Rightarrow> error + 'a list \<times> 'a list list
     \<Rightarrow> 'a pyval \<Rightarrow> string \<Rightarrow> string \<Rightarrow> 'a kwargs \<Rightarrow> error + ('a, 'm) creative_project" where
  "CreativeProject_init from_covars training_data best_response covars model acq_func kwargs =
     (case from_covars of
        Inl e \<Rightarrow> Inl e
      | Inr (guess, bounds) \<Rightarrow>
          (case training_data of
             Inl e \<Rightarrow> Inl e
           | Inr (tx, ty) \<Rightarrow>
               (case best_response of
                  Inl e \<Rightarrow> Inl e
                | Inr (best, covars_best) \<Rightarrow>
                    Inr \<lparr>initial_guess = guess, covar_bounds = bounds, covars_given = covars,
                         model_type = model, model_obj = None, likelihood = None,
                         loglikelihood = None, covars_proposed_iter = 0,
                         covars_sampled_iter = 0, response_sampled_iter = 0,
                         nu = kw_nu kwargs, acq_func_type = acq_func, acq_func_object = None,
                         sampling_method = ''manual'', sampling_response_func = None,
                         train_X = tx, train_Y = ty, best_response_value = best,
                         covars_best_response_value = covars_best\<rparr>)))"

text \<open>
  The message of the exception \<open>_set_GP_model\<close> raises for a \<open>model_type\<close> it does
  not know.
\<close>

definition unknown_model_type_message :: "string \<Rightarrow> string" where
  "unknown_model_type_message m =
     ''creative_project._modeling._set_GP_model: unknown 'model_type' ('' @ m
       @ '') provided. Must be in following list ['Custom', 'SingleTaskGP']''"

text \<open>
  \<open>_set_GP_model(self, **kwargs)\<close>. Building the model object, its likelihood and its
  marginal log-likelihood, loading a stored state and fitting are the modelling
  library's; the outcome of that work in each of the two branches is a parameter (the
  three objects, or the error raised). The method's own logic is the dispatch on
  \<open>self.model["model_type"]\<close>, the exception for any other name, and the three
  assignments at the end.
\<close>

definition set_GP_model ::
  "error + 'm \<times> 'm \<times> 'm \<Rightarrow> error + 'm \<times> 'm \<times> 'm \<Rightarrow> ('a, 'm) creative_project
     \<Rightarrow> (error + string) \<times> ('a, 'm) creative_project" where
  "set_GP_model single_task_gp custom_gp self =
     (let fitted =
            (if model_type self = ''SingleTaskGP'' then single_task_gp
             else if model_type self = ''Custom'' then custom_gp
             else Inl (Exception (unknown_model_type_message (model_type self))))
      in case fitted of
           Inl e \<Rightarrow> (Inl e, self)
         | Inr (m, lh, ll) \<Rightarrow>
             (Inr ''Successfully trained GP model'',
              self\<lparr>model_obj := Some m, likelihood := Some lh, loglikelihood := Some ll\<rparr>))"

section \<open>The best response so far\<close>

text \<open>
  Modelled from the spec: \<open>find_max_response_value(train_X, train_Y)\<close> is not part of
  the sources (only its unit test is). The specification of the Best-Response Tracker:
  scan the responses for the maximal value and return it with the full covariate row
  that achieved it (\<open>obs_X\<close> is \<open>train_X\<close>, \<open>obs_Y\<close> is \<open>train_Y\<close>); among several maximal responses the first is selected; on an empty
  set of observations the operation fails with \<open>EmptyHistoryError\<close>. The observations
  are the covariate rows paired with their responses; the scan keeps the best pair so
  far and replaces it only by a strictly larger response.
\<close>

fun scan_max :: "'x \<times> 'a::linorder \<Rightarrow> ('x \<times> 'a) list \<Rightarrow> 'x \<times> 'a" where
  "scan_max best [] = best"
| "scan_max best (obs # rest) = scan_max (if snd best < snd obs then obs else best) rest"

definition find_max_response_value :: "'x list \<Rightarrow> ('a::linorder) list \<Rightarrow> error + 'x \<times> 'a" where
  "find_max_response_value obs_X obs_Y =
     (case zip obs_X obs_Y of
        [] \<Rightarrow> Inl EmptyHistoryError
      | obs # rest \<Rightarrow> Inr (scan_max obs rest))"

section \<open>An instance for concrete evaluations\<close>

text \<open>
  The instance \<open>CreativeProject(covars=[(0.5, 0, 1)])\<close> with no training data, as
  \<open>__init__\<close> leaves it when the initializers return the initial guess \<open>[[0.5]]\<close>, the
  bounds \<open>[[0], [1]]\<close> and no observations.
\<close>

definition simple_project :: "(real, unit) creative_project" where
  "simple_project =
     \<lparr>initial_guess = [[0.5]], covar_bounds = [[0], [1]],
      covars_given = PyList [PyTuple [PyFloat 0.5, PyInt 0, PyInt 1]],
      model_type = ''SingleTaskGP'', model_obj = None, likelihood = None,
      loglikelihood = None, covars_proposed_iter = 0, covars_sampled_iter = 0,
      response_sampled_iter = 0, nu = None, acq_func_type = ''EI'', acq_func_object = None,
      sampling_method = ''manual'', sampling_response_func = None,
      train_X = None, train_Y = None, best_response_value = [],
      covars_best_response_value = []\<rparr>"

section \<open>The convergence check on a store of tensors\<close>

text \<open>
  Tensors and arrays are objects in memory, and several of them can share one storage:
  a slice \<open>t[a:b]\<close> of a tensor is a view of the rows \<open>a..b\<close> of the storage of \<open>t\<close>,
  and \<open>t.numpy()\<close> is an array on the storage of \<open>t\<close>; writing through either
  would change \<open>t\<close>. The store holds every storage allocated so far, by shape: those of
  tensors of one column (\<open>best_response_value\<close>, \<open>train_Y\<close>, and the arrays the check
  computes), those of tensors of two columns (what \<open>torch.cat\<close> builds), and those of
  the other tensors of two dimensions. An address is an index into one of the three
  lists; allocation appends.
\<close>

record 'a store =
  columns :: "'a list list"
  two_columns :: "('a \<times> 'a) list list"
  matrices :: "'a list list list"

text \<open>A tensor of one column: \<open>v_rows\<close> rows of the storage at \<open>v_addr\<close>, from row \<open>v_start\<close>.\<close>

record view =
  v_addr :: nat
  v_start :: nat
  v_rows :: nat

definition read_column :: "'a store \<Rightarrow> view \<Rightarrow> 'a list" where
  "read_column s v = take (v_rows v) (drop (v_start v) (columns s ! v_addr v))"

definition valid_view :: "'a store \<Rightarrow> view \<Rightarrow> bool" where
  "valid_view s v \<longleftrightarrow>
     v_addr v < length (columns s) \<and> v_start v + v_rows v \<le> length (columns s ! v_addr v)"

text \<open>\<open>t[start:stop]\<close> on a tensor: a view of the same storage, nothing is copied.\<close>

definition slice_view :: "view \<Rightarrow> int option \<Rightarrow> int option \<Rightarrow> view" where
  "slice_view v start stop =
     (let n = v_rows v;
          lo = (case start of None \<Rightarrow> 0 | Some i \<Rightarrow> slice_index n i);
          hi = (case stop of None \<Rightarrow> n | Some j \<Rightarrow> slice_index n j)
      in \<lparr>v_addr = v_addr v, v_start = v_start v + lo, v_rows = hi - lo\<rparr>)"

definition alloc_column :: "'a store \<Rightarrow> 'a list \<Rightarrow> view \<times> 'a store" where
  "alloc_column s xs =
     (\<lparr>v_addr = length (columns s), v_start = 0, v_rows = length xs\<rparr>,
      s\<lparr>columns := columns s @ [xs]\<rparr>)"

definition alloc_two_columns :: "'a store \<Rightarrow> ('a \<times> 'a) list \<Rightarrow> nat \<times> 'a store" where
  "alloc_two_columns s rows = (length (two_columns s), s\<lparr>two_columns := two_columns s @ [rows]\<rparr>)"

text \<open>
  \<open>torch.cat((a, b), dim=1)\<close> copies the rows of both views into a new tensor, or
  raises. \<open>np.diff\<close> and the division of two arrays return new arrays. \<open>.numpy()\<close>
  returns an array on the tensor's own storage, so it is the address or view it is
  applied to, and \<open>.tolist()\<close> reads.
\<close>

definition torch_cat_dim1_on :: "'a store \<Rightarrow> view \<Rightarrow> view \<Rightarrow> (error + nat) \<times> 'a store" where
  "torch_cat_dim1_on s a b =
     (case torch_cat_dim1 (read_column s a) (read_column s b) of
        Inl e \<Rightarrow> (Inl e, s)
      | Inr rows \<Rightarrow> (let (t, s') = alloc_two_columns s rows in (Inr t, s')))"

definition np_diff_axis1_on :: "('a::minus) store \<Rightarrow> nat \<Rightarrow> view \<times> 'a store" where
  "np_diff_axis1_on s t = alloc_column s (np_diff_axis1 (two_columns s ! t))"

definition np_divide_on :: "('a::inverse) store \<Rightarrow> view \<Rightarrow> view \<Rightarrow> view \<times> 'a store" where
  "np_divide_on s x y = alloc_column s (np_divide (read_column s x) (read_column s y))"

text \<open>
  The instance with its tensors in the store: each tensor attribute is where the tensor
  lies, every other attribute is its value.
\<close>

record ('a, 'm) project_on_store =
  at_initial_guess :: nat
  at_covar_bounds :: nat
  s_covars_given :: "'a pyval"
  s_model_type :: string
  s_model_obj :: "'m option"
  s_likelihood :: "'m option"
  s_loglikelihood :: "'m option"
  s_covars_proposed_iter :: nat
  s_covars_sampled_iter :: nat
  s_response_sampled_iter :: nat
  s_nu :: "'a option"
  s_acq_func_type :: string
  s_acq_func_object :: "'m option"
  s_sampling_method :: string
  s_sampling_response_func :: "'m option"
  at_train_X :: "nat option"
  at_train_Y :: "view option"
  at_best_response_value :: view
  at_covars_best_response_value :: nat

text \<open>The instance state as values: every tensor attribute read from the store.\<close>

definition project_of :: "'a store \<Rightarrow> ('a, 'm) project_on_store \<Rightarrow> ('a, 'm) creative_project" where
  "project_of s p =
     \<lparr>initial_guess = matrices s ! at_initial_guess p,
      covar_bounds = matrices s ! at_covar_bounds p,
      covars_given = s_covars_given p, model_type = s_model_type p,
      model_obj = s_model_obj p, likelihood = s_likelihood p,
      loglikelihood = s_loglikelihood p,
      covars_proposed_iter = s_covars_proposed_iter p,
      covars_sampled_iter = s_covars_sampled_iter p,
      response_sampled_iter = s_response_sampled_iter p, nu = s_nu p,
      acq_func_type = s_acq_func_type p, acq_func_object = s_acq_func_object p,
      sampling_method = s_sampling_method p,
      sampling_response_func = s_sampling_response_func p,
      train_X = map_option (\<lambda>a. matrices s ! a) (at_train_X p),
      train_Y = map_option (read_column s) (at_train_Y p),
      best_response_value = read_column s (at_best_response_value p),
      covars_best_response_value = matrices s ! at_covars_best_response_value p\<rparr>"

definition valid_project :: "'a store \<Rightarrow> ('a, 'm) project_on_store \<Rightarrow> bool" where
  "valid_project s p \<longleftrightarrow>
     valid_view s (at_best_response_value p)
     \<and> (case at_train_Y p of None \<Rightarrow> True | Some v \<Rightarrow> valid_view s v)"

text \<open>
  \<open>Validators.__continue_iterating_rel_tol_conditions\<close> statement by statement on the
  store: what it returns or raises, the instance, and the store it leaves. The two
  slices of \<open>self.best_response_value\<close> are views of its storage, the second one taken
  twice; \<open>tmp_array\<close> is the array on the storage of the concatenated tensor.
\<close>

definition continue_iterating_rel_tol_conditions_on ::
  "('a::{minus,inverse,ord}) store \<Rightarrow> ('a, 'm) project_on_store \<Rightarrow> 'a option \<Rightarrow> int option
     \<Rightarrow> (error + bool) \<times> ('a, 'm) project_on_store \<times> 'a store" where
  "continue_iterating_rel_tol_conditions_on s self rel_tol rel_tol_steps0 =
     (let rel_tol_steps =
            (if rel_tol \<noteq> None \<and> rel_tol_steps0 = None then Some 1 else rel_tol_steps0)
      in case (rel_tol, rel_tol_steps) of
           (Some r, Some k) \<Rightarrow>
             if int (v_rows (at_best_response_value self)) \<ge> k then
               (case torch_cat_dim1_on s
                       (slice_view (at_best_response_value self) (Some (- (k + 1))) (Some (- 1)))
                       (slice_view (at_best_response_value self) (Some (- k)) None) of
                  (Inl e, s1) \<Rightarrow> (Inl e, self, s1)
                | (Inr tmp_array, s1) \<Rightarrow>
                    (let (diffs, s2) = np_diff_axis1_on s1 tmp_array;
                         (tmp_rel_diff, s3) =
                           np_divide_on s2 diffs
                             (slice_view (at_best_response_value self) (Some (- k)) None);
                         below_rel_tol = map (\<lambda>rel_dif. rel_dif < r) (read_column s3 tmp_rel_diff)
                     in if int (length (filter (\<lambda>b. b) below_rel_tol)) = k
                        then (Inr False, self, s3) else (Inr True, self, s3)))
             else (Inr True, self, s)
         | _ \<Rightarrow> (Inr True, self, s))"

text \<open>
  What one run of the check does to the store: storages are added, none is changed.
\<close>

definition store_extends :: "'a store \<Rightarrow> 'a store \<Rightarrow> bool" where
  "store_extends s s' \<longleftrightarrow>
     take (length (columns s)) (columns s') = columns s
     \<and> take (length (two_columns s)) (two_columns s') = two_columns s
     \<and> matrices s' = matrices s"

text \<open>
  A store for concrete evaluations: an instance with three observations of one
  covariate. The column storages are those of \<open>best_response_value\<close> and \<open>train_Y\<close>,
  the matrices those of the initial guess, the bounds, \<open>train_X\<close> and
  \<open>covars_best_response_value\<close>.
\<close>

definition simple_store :: "real store" where
  "simple_store =
     \<lparr>columns = [[1, 1.01, 1.02], [1, 1.01, 1.02]],
      two_columns = [],
      matrices = [[[0.5]], [[0], [1]], [[0.5], [0.6], [0.7]], [[0.5], [0.6], [0.7]]]\<rparr>"

definition simple_project_on_store :: "(real, unit) project_on_store" where
  "simple_project_on_store =
     \<lparr>at_initial_guess = 0, at_covar_bounds = 1,
      s_covars_given = PyList [PyTuple [PyFloat 0.5, PyInt 0, PyInt 1]],
      s_model_type = ''SingleTaskGP'', s_model_obj = None, s_likelihood = None,
      s_loglikelihood = None, s_covars_proposed_iter = 0, s_covars_sampled_iter = 3,
      s_response_sampled_iter = 3, s_nu = None, s_acq_func_type = ''EI'',
      s_acq_func_object = None, s_sampling_method = ''manual'',
      s_sampling_response_func = None, at_train_X = Some 2,
      at_train_Y = Some \<lparr>v_addr = 1, v_start = 0, v_rows = 3\<rparr>,
      at_best_response_value = \<lparr>v_addr = 0, v_start = 0, v_rows = 3\<rparr>,
      at_covars_best_response_value = 3\<rparr>"

section \<open>Properties of the convergence check\<close>

lemma should_continue_no_rel_tol: "should_continue self None k = Inr True"
  by (simp add: should_continue_def continue_iterating_rel_tol_conditions_def)

text \<open>
  C5. With \<open>rel_tol = None\<close> the check returns \<open>True\<close>, for every best-response series
  (the empty one too) and every value of \<open>rel_tol_steps\<close>.
\<close>

theorem rel_tol_None_continues:
  "should_continue self None rel_tol_steps = Inr True
   \<and> should_continue (self\<lparr>best_response_value := []\<rparr>) None rel_tol_steps = Inr True"
  by (simp add: should_continue_no_rel_tol)

lemma slice_index_negative: "i < 0 \<Longrightarrow> slice_index n i = nat (int n + i)"
  by (simp add: slice_index_def max_def)

lemma slice_earlier:
  assumes "1 \<le> k" "nat k + 1 \<le> length xs"
  shows "py_slice xs (Some (- (k + 1))) (Some (- 1)) = take (nat k) (drop (length xs - nat k - 1) xs)"
proof -
  have lo: "slice_index (length xs) (- k - 1) = length xs - Suc (nat k)"
    using assms by (simp add: slice_index_negative)
  have hi: "slice_index (length xs) (- 1) = length xs - 1"
    by (simp add: slice_index_negative)
  have "length xs - Suc (length xs - Suc (nat k)) = nat k"
    using assms by arith
  then show ?thesis
    by (simp add: py_slice_def Let_def lo hi)
qed

lemma slice_later:
  assumes "1 \<le> k" "nat k \<le> length xs"
  shows "py_slice xs (Some (- k)) None = drop (length xs - nat k) xs"
proof -
  have lo: "slice_index (length xs) (- k) = length xs - nat k"
    using assms by (simp add: slice_index_negative)
  show ?thesis
    by (simp add: py_slice_def Let_def lo)
qed

lemma count_all: "int (length (filter (\<lambda>b. b) (map P xs))) = int (length xs) \<longleftrightarrow> (\<forall>x\<in>set xs. P x)"
proof -
  have "length (filter (\<lambda>b. b) (map P xs)) = length (filter P xs)"
    by (induction xs) auto
  moreover have "length (filter P xs) = length xs \<longleftrightarrow> (\<forall>x\<in>set xs. P x)"
  proof (induction xs)
    case Nil
    show ?case by simp
  next
    case (Cons a xs)
    have "length (filter P xs) < Suc (length xs)"
      by (simp add: le_imp_less_Suc)
    then have "length (filter P xs) \<noteq> Suc (length xs)"
      by (rule less_imp_neq)
    with Cons show ?case
      by (cases "P a") simp_all
  qed
  ultimately show ?thesis by simp
qed


lemma rel_diff_nth:
  assumes "length a = length b" "i < length b"
  shows "np_divide (np_diff_axis1 (zip a b)) b ! i = (b ! i - a ! i) / b ! i"
  using assms by (simp add: np_divide_def np_diff_axis1_def)

lemma rel_diff_length:
  "length a = length b \<Longrightarrow> length (np_divide (np_diff_axis1 (zip a b)) b) = length b"
  by (simp add: np_divide_def np_diff_axis1_def)

lemma continue_iterating_both_set:
  "continue_iterating_rel_tol_conditions self (Some r) (Some k) =
     (if int (length (best_response_value self)) \<ge> k then
        (case torch_cat_dim1
                (py_slice (best_response_value self) (Some (- (k + 1))) (Some (- 1)))
                (py_slice (best_response_value self) (Some (- k)) None) of
           Inl e \<Rightarrow> (Inl e, self)
         | Inr tmp_array \<Rightarrow>
             if int (length (filter (\<lambda>b. b) (map (\<lambda>rel_dif. rel_dif < r)
                   (np_divide (np_diff_axis1 tmp_array)
                      (py_slice (best_response_value self) (Some (- k)) None))))) = k
             then (Inr False, self) else (Inr True, self))
      else (Inr True, self))"
  by (simp add: continue_iterating_rel_tol_conditions_def Let_def split: sum.split)

lemma should_continue_criterion:
  fixes self :: "('a::{minus,inverse,ord}, 'm) creative_project"
  assumes k: "1 \<le> k" and n: "nat k + 1 \<le> length (best_response_value self)"
  shows "should_continue self (Some r) (Some k) =
         Inr (\<not> (\<forall>i<nat k.
            (best_response_value self ! (length (best_response_value self) - nat k + i)
              - best_response_value self ! (length (best_response_value self) - nat k - 1 + i))
            / best_response_value self ! (length (best_response_value self) - nat k + i) < r))"
proof -
  define xs where "xs = best_response_value self"
  define a where "a = take (nat k) (drop (length xs - nat k - 1) xs)"
  define b where "b = drop (length xs - nat k) xs"
  define d where "d = np_divide (np_diff_axis1 (zip a b)) b"
  have n': "nat k + 1 \<le> length xs" using n by (simp add: xs_def)
  have sa: "py_slice (best_response_value self) (Some (- (k + 1))) (Some (- 1)) = a"
    unfolding a_def xs_def using k n by (rule slice_earlier)
  have sb: "py_slice (best_response_value self) (Some (- k)) None = b"
    unfolding b_def xs_def using k n by (intro slice_later) simp_all
  have la: "length a = nat k" using n' by (simp add: a_def)
  have lb: "length b = nat k" using n' by (simp add: b_def)
  have ld: "length d = nat k" using la lb by (simp add: d_def rel_diff_length)
  have guard: "k \<le> int (length xs)" using n' by arith
  have cat: "torch_cat_dim1 a b = Inr (zip a b)"
    by (simp add: torch_cat_dim1_def la lb)
  have nth_a: "a ! i = xs ! (length xs - nat k - 1 + i)" if "i < nat k" for i
    using that n' by (simp add: a_def)
  have nth_b: "b ! i = xs ! (length xs - nat k + i)" if "i < nat k" for i
    using that n' by (simp add: b_def)
  have nth_d: "d ! i = (xs ! (length xs - nat k + i) - xs ! (length xs - nat k - 1 + i))
                        / xs ! (length xs - nat k + i)" if "i < nat k" for i
    using that by (simp add: d_def rel_diff_nth la lb nth_a nth_b)
  have count: "int (length (filter (\<lambda>b. b) (map (\<lambda>rel_dif. rel_dif < r) d))) = k
               \<longleftrightarrow> (\<forall>x\<in>set d. x < r)"
    using count_all [of "\<lambda>rel_dif. rel_dif < r" d] k by (simp add: ld)
  have all: "(\<forall>x\<in>set d. x < r) \<longleftrightarrow> (\<forall>i<nat k. d ! i < r)"
    by (simp add: all_set_conv_all_nth ld)
  have step: "continue_iterating_rel_tol_conditions self (Some r) (Some k) =
      (if int (length (filter (\<lambda>b. b) (map (\<lambda>rel_dif. rel_dif < r) d))) = k
       then (Inr False, self) else (Inr True, self))"
    unfolding continue_iterating_both_set sa sb cat d_def
    using guard by (simp add: xs_def)
  have "should_continue self (Some r) (Some k) = Inr (\<not> (\<forall>i<nat k. d ! i < r))"
    unfolding should_continue_def step count all by simp
  then show ?thesis
    by (simp add: nth_d xs_def)
qed


lemma should_continue_too_short:
  "int (length (best_response_value self)) < k \<Longrightarrow> should_continue self (Some r) (Some k) = Inr True"
  unfolding should_continue_def continue_iterating_both_set by simp

lemma should_continue_exactly_steps:
  fixes self :: "('a::{minus,inverse,ord}, 'm) creative_project"
  assumes k: "1 \<le> k" and n: "int (length (best_response_value self)) = k"
  shows "should_continue self (Some r) (Some k) = Inl RuntimeError"
proof -
  define xs where "xs = best_response_value self"
  have len: "length xs = nat k" using n by (simp add: xs_def)
  have pos: "0 < length xs" using k len by simp
  have ne: "length xs - 1 \<noteq> length xs" using pos by arith
  have lo: "slice_index (length xs) (- (k + 1)) = 0"
    using k len by (simp add: slice_index_negative)
  have hi: "slice_index (length xs) (- 1) = length xs - 1"
    by (simp add: slice_index_negative)
  have lo': "slice_index (length xs) (- k) = 0"
    using k len by (simp add: slice_index_negative)
  have la: "length (py_slice xs (Some (- (k + 1))) (Some (- 1))) = length xs - 1"
    unfolding py_slice_def Let_def option.case lo hi by simp
  have lb: "length (py_slice xs (Some (- k)) None) = length xs"
    unfolding py_slice_def Let_def option.case lo' by simp
  have cat: "torch_cat_dim1 (py_slice (best_response_value self) (Some (- (k + 1))) (Some (- 1)))
               (py_slice (best_response_value self) (Some (- k)) None) = Inl RuntimeError"
    unfolding torch_cat_dim1_def xs_def [symmetric] la lb using ne by simp
  show ?thesis
    unfolding should_continue_def continue_iterating_both_set cat using n by simp
qed

lemma should_continue_negative_steps:
  fixes self :: "('a::{minus,inverse,ord}, 'm) creative_project"
  assumes k: "k < 0"
  shows "should_continue self (Some r) (Some k) = Inr True"
proof -
  define xs where "xs = best_response_value self"
  define a where "a = py_slice xs (Some (- (k + 1))) (Some (- 1))"
  define b where "b = py_slice xs (Some (- k)) None"
  have lo: "slice_index (length xs) (- (k + 1)) = min (length xs) (nat (- k) - 1)"
    using k by (simp add: slice_index_def nat_diff_distrib)
  have hi: "slice_index (length xs) (- 1) = length xs - 1"
    by (simp add: slice_index_negative)
  have lo': "slice_index (length xs) (- k) = min (length xs) (nat (- k))"
    using k by (simp add: slice_index_def)
  have la: "length a = length xs - 1 - min (length xs) (nat (- k) - 1)"
    unfolding a_def py_slice_def Let_def option.case lo hi by simp
  have lb: "length b = length xs - min (length xs) (nat (- k))"
    unfolding b_def py_slice_def Let_def option.case lo' by simp
  have "0 < nat (- k)" using k by simp
  then have "length a = length b" unfolding la lb by arith
  then have cat: "torch_cat_dim1 a b = Inr (zip a b)"
    by (simp add: torch_cat_dim1_def)
  have count: "int m \<noteq> k" for m :: nat
    using k by simp
  show ?thesis
    unfolding should_continue_def continue_iterating_both_set
      xs_def [symmetric] a_def [symmetric] b_def [symmetric] cat
    by (simp add: count)
qed


text \<open>
  C1. For \<open>k \<ge> 1\<close> steps and a series of at least \<open>k + 1\<close> entries the check returns
  \<open>False\<close> exactly when every one of the \<open>k\<close> relative differences
  \<open>(later - earlier) / later\<close> of neighbouring entries among the last \<open>k + 1\<close> is
  strictly below \<open>rel_tol\<close>, and \<open>True\<close> otherwise. This holds in whatever arithmetic
  the entries have; the two series of the specification are evaluated on the reals.
\<close>

theorem rel_tol_conditions_criterion:
  fixes self :: "('a::{minus,inverse,ord}, 'm) creative_project"
    and p :: "(real, 'n) creative_project"
  shows "(1 \<le> k \<and> nat k + 1 \<le> length (best_response_value self) \<longrightarrow>
            should_continue self (Some r) (Some k) =
              Inr (\<not> (\<forall>i<nat k.
                (best_response_value self ! (length (best_response_value self) - nat k + i)
                  - best_response_value self ! (length (best_response_value self) - nat k - 1 + i))
                / best_response_value self ! (length (best_response_value self) - nat k + i) < r)))
         \<and> should_continue (p\<lparr>best_response_value := [1, 1.01, 1.02]\<rparr>) (Some 0.05) (Some 2)
             = Inr False
         \<and> should_continue (p\<lparr>best_response_value := [1, 1.5, 1.51]\<rparr>) (Some 0.05) (Some 2)
             = Inr True"
proof (intro conjI impI)
  assume "1 \<le> k \<and> nat k + 1 \<le> length (best_response_value self)"
  then show "should_continue self (Some r) (Some k) =
      Inr (\<not> (\<forall>i<nat k.
        (best_response_value self ! (length (best_response_value self) - nat k + i)
          - best_response_value self ! (length (best_response_value self) - nat k - 1 + i))
        / best_response_value self ! (length (best_response_value self) - nat k + i) < r))"
    by (simp add: should_continue_criterion)
next
  show "should_continue (p\<lparr>best_response_value := [1, 1.01, 1.02]\<rparr>) (Some 0.05) (Some 2)
          = Inr False"
    by (simp add: should_continue_def continue_iterating_rel_tol_conditions_def
        py_slice_def slice_index_def torch_cat_dim1_def np_diff_axis1_def np_divide_def)
next
  show "should_continue (p\<lparr>best_response_value := [1, 1.5, 1.51]\<rparr>) (Some 0.05) (Some 2)
          = Inr True"
    by (simp add: should_continue_def continue_iterating_rel_tol_conditions_def
        py_slice_def slice_index_def torch_cat_dim1_def np_diff_axis1_def np_divide_def)
qed

theorem rel_tol_conditions_criterion_witness:
  "(1::int) \<le> 1 \<and> nat 1 + 1 \<le> length (best_response_value (simple_project\<lparr>best_response_value := [2, 4, 5]\<rparr>))
   \<and> should_continue (simple_project\<lparr>best_response_value := [2, 4, 5]\<rparr>) (Some 0.25) (Some 1)
       = Inr False
   \<and> should_continue (simple_project\<lparr>best_response_value := [2, 4, 5]\<rparr>) (Some 0.2) (Some 1)
       = Inr True"
  using rel_tol_conditions_criterion
      [where k = 1 and self = "simple_project\<lparr>best_response_value := [2, 4, 5]\<rparr>" and r = "0.25" and p = simple_project]
    rel_tol_conditions_criterion
      [where k = 1 and self = "simple_project\<lparr>best_response_value := [2, 4, 5]\<rparr>" and r = "0.2" and p = simple_project]
  by simp

text \<open>
  C2. With fewer than \<open>rel_tol_steps\<close> entries the check returns \<open>True\<close> without
  evaluating the criterion. Its guard also lets a series of exactly \<open>rel_tol_steps\<close>
  entries through, and there the two slices differ in their number of rows, so the
  method raises the \<open>RuntimeError\<close> of \<open>torch.cat\<close> instead of returning a
  boolean: so with \<open>rel_tol = 0.05\<close>, \<open>rel_tol_steps = 2\<close> and the series
  \<open>[1.0, 1.01]\<close>.
\<close>

theorem guard_admits_exactly_steps_entries:
  fixes self :: "('a::{minus,inverse,ord}, 'm) creative_project"
    and p :: "(real, 'n) creative_project"
  shows "(int (length (best_response_value self)) < k \<longrightarrow>
            should_continue self (Some r) (Some k) = Inr True)
         \<and> (1 \<le> k \<and> int (length (best_response_value self)) = k \<longrightarrow>
            should_continue self (Some r) (Some k) = Inl RuntimeError)
         \<and> should_continue (p\<lparr>best_response_value := [1, 1.01]\<rparr>) (Some 0.05) (Some 2)
             = Inl RuntimeError"
proof (intro conjI impI)
  assume "int (length (best_response_value self)) < k"
  then show "should_continue self (Some r) (Some k) = Inr True"
    by (rule should_continue_too_short)
next
  assume "1 \<le> k \<and> int (length (best_response_value self)) = k"
  then show "should_continue self (Some r) (Some k) = Inl RuntimeError"
    by (simp add: should_continue_exactly_steps)
next
  show "should_continue (p\<lparr>best_response_value := [1, 1.01]\<rparr>) (Some 0.05) (Some 2)
          = Inl RuntimeError"
    by (simp add: should_continue_def continue_iterating_rel_tol_conditions_def
        py_slice_def slice_index_def torch_cat_dim1_def)
qed

theorem guard_admits_exactly_steps_entries_witness:
  "int (length (best_response_value (simple_project\<lparr>best_response_value := [2]\<rparr>))) < 2
   \<and> should_continue (simple_project\<lparr>best_response_value := [2]\<rparr>) (Some 0.05) (Some 2) = Inr True
   \<and> (1 :: int) \<le> 1
   \<and> int (length (best_response_value (simple_project\<lparr>best_response_value := [2]\<rparr>))) = 1
   \<and> should_continue (simple_project\<lparr>best_response_value := [2]\<rparr>) (Some 0.05) (Some 1)
       = Inl RuntimeError"
  using guard_admits_exactly_steps_entries
      [where k = 2 and self = "simple_project\<lparr>best_response_value := [2]\<rparr>" and r = "0.05"
         and p = simple_project]
    guard_admits_exactly_steps_entries
      [where k = 1 and self = "simple_project\<lparr>best_response_value := [2]\<rparr>" and r = "0.05"
         and p = simple_project]
  by simp

text \<open>
  C4. With \<open>rel_tol_steps = None\<close> the check returns what it returns with
  \<open>rel_tol_steps = 1\<close>, for every \<open>rel_tol\<close> (\<open>None\<close> too) and every series; with
  \<open>rel_tol = 0.1\<close> and the series \<open>[1.0, 1.04]\<close> that is \<open>False\<close>.
\<close>

theorem steps_None_is_one_step:
  fixes self :: "('a::{minus,inverse,ord}, 'm) creative_project"
    and p :: "(real, 'n) creative_project"
  shows "should_continue self rel_tol None = should_continue self rel_tol (Some 1)
         \<and> should_continue (p\<lparr>best_response_value := [1, 1.04]\<rparr>) (Some 0.1) None = Inr False"
proof
  show "should_continue self rel_tol None = should_continue self rel_tol (Some 1)"
    by (cases rel_tol)
      (simp_all add: should_continue_def continue_iterating_rel_tol_conditions_def)
next
  show "should_continue (p\<lparr>best_response_value := [1, 1.04]\<rparr>) (Some 0.1) None = Inr False"
    by (simp add: should_continue_def continue_iterating_rel_tol_conditions_def
        py_slice_def slice_index_def torch_cat_dim1_def np_diff_axis1_def np_divide_def)
qed

text \<open>
  C6, counterexample. A negative tolerance and a negative number of steps are both
  accepted and used: with \<open>rel_tol = -0.5\<close> the check stops on the series
  \<open>[-2.0, -1.0]\<close>, whose relative difference \<open>(-1 - (-2)) / (-1) = -1\<close> lies below
  it, and continues on \<open>[1.0, 1.5]\<close>; with \<open>rel_tol_steps = -2\<close> it continues. Nothing
  is raised.
\<close>

theorem negative_config_accepted:
  "should_continue (simple_project\<lparr>best_response_value := [- 2, - 1]\<rparr>) (Some (- 0.5)) (Some 1)
     = Inr False
   \<and> should_continue (simple_project\<lparr>best_response_value := [1, 1.5]\<rparr>) (Some (- 0.5)) (Some 1)
     = Inr True
   \<and> should_continue (simple_project\<lparr>best_response_value := [1, 1.5]\<rparr>) (Some 0.05) (Some (- 2))
     = Inr True"
  by (simp add: should_continue_def continue_iterating_rel_tol_conditions_def
        py_slice_def slice_index_def torch_cat_dim1_def np_diff_axis1_def np_divide_def)

text \<open>
  C6, as amended. The check validates neither argument and raises no configuration
  error. For every \<open>rel_tol\<close>, negative ones included, with \<open>k \<ge> 1\<close> steps and a
  series of at least \<open>k + 1\<close> entries it evaluates the criterion with that value: it
  returns \<open>False\<close> exactly when each of the \<open>k\<close> relative differences
  \<open>(later - earlier) / later\<close> over the last \<open>k + 1\<close> entries is strictly below that
  \<open>rel_tol\<close>, and \<open>True\<close> otherwise. With a negative number of steps it returns
  \<open>True\<close> on every series.
\<close>

theorem out_of_range_config_not_rejected:
  fixes self :: "('a::{minus,inverse,ord}, 'm) creative_project"
  shows "(1 \<le> k \<and> nat k + 1 \<le> length (best_response_value self) \<longrightarrow>
            should_continue self (Some r) (Some k) =
              Inr (\<not> (\<forall>i<nat k.
                (best_response_value self ! (length (best_response_value self) - nat k + i)
                  - best_response_value self ! (length (best_response_value self) - nat k - 1 + i))
                / best_response_value self ! (length (best_response_value self) - nat k + i) < r)))
         \<and> (k < 0 \<longrightarrow> should_continue self (Some r) (Some k) = Inr True)"
proof (intro conjI impI)
  assume "1 \<le> k \<and> nat k + 1 \<le> length (best_response_value self)"
  then show "should_continue self (Some r) (Some k) =
      Inr (\<not> (\<forall>i<nat k.
        (best_response_value self ! (length (best_response_value self) - nat k + i)
          - best_response_value self ! (length (best_response_value self) - nat k - 1 + i))
        / best_response_value self ! (length (best_response_value self) - nat k + i) < r))"
    by (simp add: should_continue_criterion)
next
  assume "k < 0"
  then show "should_continue self (Some r) (Some k) = Inr True"
    by (rule should_continue_negative_steps)
qed

theorem out_of_range_config_not_rejected_witness:
  "(1::int) \<le> 1
   \<and> nat 1 + 1 \<le> length (best_response_value (simple_project\<lparr>best_response_value := [- 2, - 1]\<rparr>))
   \<and> should_continue (simple_project\<lparr>best_response_value := [- 2, - 1]\<rparr>) (Some (- 0.5)) (Some 1)
       = Inr False
   \<and> should_continue (simple_project\<lparr>best_response_value := [- 2, - 1]\<rparr>) (Some (- 1)) (Some 1)
       = Inr True
   \<and> (- 3 :: int) < 0
   \<and> should_continue (simple_project\<lparr>best_response_value := [- 2, - 1]\<rparr>) (Some (- 0.5)) (Some (- 3))
       = Inr True"
  using out_of_range_config_not_rejected
      [where k = 1 and self = "simple_project\<lparr>best_response_value := [- 2, - 1]\<rparr>" and r = "- 0.5"]
    out_of_range_config_not_rejected
      [where k = 1 and self = "simple_project\<lparr>best_response_value := [- 2, - 1]\<rparr>" and r = "- 1"]
    out_of_range_config_not_rejected
      [where k = "- 3" and self = "simple_project\<lparr>best_response_value := [- 2, - 1]\<rparr>" and r = "- 0.5"]
  by simp

section \<open>The convergence check leaves the instance as it was\<close>

lemma slice_index_le: "slice_index n i \<le> n"
  by (auto simp: slice_index_def max_def)

lemma length_read_column: "valid_view s v \<Longrightarrow> length (read_column s v) = v_rows v"
  by (auto simp: read_column_def valid_view_def min_def)

lemma read_slice_view:
  assumes "valid_view s v"
  shows "read_column s (slice_view v start stop) = py_slice (read_column s v) start stop"
proof -
  define xs where "xs = columns s ! v_addr v"
  have len: "length (read_column s v) = v_rows v"
    using assms by (rule length_read_column)
  define lo where "lo = (case start of None \<Rightarrow> 0 | Some i \<Rightarrow> slice_index (v_rows v) i)"
  define hi where "hi = (case stop of None \<Rightarrow> v_rows v | Some j \<Rightarrow> slice_index (v_rows v) j)"
  have hi: "hi \<le> v_rows v"
    by (simp add: hi_def slice_index_le split: option.split)
  have "read_column s (slice_view v start stop) = take (hi - lo) (drop (v_start v + lo) xs)"
    by (simp add: read_column_def slice_view_def Let_def lo_def hi_def xs_def)
  also have "\<dots> = take (hi - lo) (take (v_rows v - lo) (drop (lo + v_start v) xs))"
    using hi by (simp add: min_def ac_simps)
  also have "\<dots> = take (hi - lo) (drop lo (take (v_rows v) (drop (v_start v) xs)))"
    by (simp add: drop_take)
  also have "\<dots> = py_slice (read_column s v) start stop"
    unfolding py_slice_def Let_def len by (simp add: lo_def hi_def read_column_def xs_def)
  finally show ?thesis .
qed

lemma valid_view_alloc_column:
  "valid_view s v \<Longrightarrow> valid_view (snd (alloc_column s xs)) v"
  by (simp add: valid_view_def alloc_column_def nth_append)

lemma read_column_alloc_column_old:
  "v_addr v < length (columns s) \<Longrightarrow> read_column (snd (alloc_column s xs)) v = read_column s v"
  by (simp add: read_column_def alloc_column_def nth_append)

lemma read_column_alloc_column_new:
  "read_column (snd (alloc_column s xs)) (fst (alloc_column s xs)) = xs"
  by (simp add: read_column_def alloc_column_def)

lemma read_column_alloc_two_columns:
  "read_column (snd (alloc_two_columns s rows)) v = read_column s v"
  by (simp add: read_column_def alloc_two_columns_def)

lemma two_columns_alloc_new:
  "two_columns (snd (alloc_two_columns s rows)) ! fst (alloc_two_columns s rows) = rows"
  by (simp add: alloc_two_columns_def)


lemma store_extends_refl: "store_extends s s"
  by (simp add: store_extends_def)

lemma store_extends_length:
  assumes "store_extends s s'"
  shows "length (columns s) \<le> length (columns s')"
    and "length (two_columns s) \<le> length (two_columns s')"
proof -
  have "length (take (length (columns s)) (columns s')) = length (columns s)"
    using assms by (simp only: store_extends_def)
  then show "length (columns s) \<le> length (columns s')" by simp
  have "length (take (length (two_columns s)) (two_columns s')) = length (two_columns s)"
    using assms by (simp only: store_extends_def)
  then show "length (two_columns s) \<le> length (two_columns s')" by simp
qed

lemma store_extends_trans:
  assumes a: "store_extends s s1" and b: "store_extends s1 s2"
  shows "store_extends s s2"
proof -
  have l1: "length (columns s) \<le> length (columns s1)"
    using a by (rule store_extends_length)
  have l2: "length (two_columns s) \<le> length (two_columns s1)"
    using a by (rule store_extends_length)
  have c1: "take (length (columns s1)) (columns s2) = columns s1"
    using b by (simp only: store_extends_def)
  have c0: "take (length (columns s)) (columns s1) = columns s"
    using a by (simp only: store_extends_def)
  have "take (length (columns s)) (columns s2)
        = take (length (columns s)) (take (length (columns s1)) (columns s2))"
    using l1 by (simp add: min_def)
  then have c: "take (length (columns s)) (columns s2) = columns s"
    by (simp only: c1 c0)
  have t1: "take (length (two_columns s1)) (two_columns s2) = two_columns s1"
    using b by (simp only: store_extends_def)
  have t0: "take (length (two_columns s)) (two_columns s1) = two_columns s"
    using a by (simp only: store_extends_def)
  have "take (length (two_columns s)) (two_columns s2)
        = take (length (two_columns s)) (take (length (two_columns s1)) (two_columns s2))"
    using l2 by (simp add: min_def)
  then have t: "take (length (two_columns s)) (two_columns s2) = two_columns s"
    by (simp only: t1 t0)
  have m: "matrices s2 = matrices s"
    using a b by (simp add: store_extends_def)
  show ?thesis
    unfolding store_extends_def using c t m by simp
qed

lemma store_extends_alloc_column: "store_extends s (snd (alloc_column s xs))"
  by (simp add: store_extends_def alloc_column_def)

lemma store_extends_alloc_two_columns: "store_extends s (snd (alloc_two_columns s rows))"
  by (simp add: store_extends_def alloc_two_columns_def)

lemma store_extends_nth:
  assumes "store_extends s s'" and "a < length (columns s)"
  shows "columns s' ! a = columns s ! a" and "a < length (columns s')"
proof -
  have t: "take (length (columns s)) (columns s') = columns s"
    using assms(1) by (simp add: store_extends_def)
  have "columns s ! a = take (length (columns s)) (columns s') ! a" by (simp add: t)
  also have "\<dots> = columns s' ! a" using assms(2) by simp
  finally show "columns s' ! a = columns s ! a" by simp
  have "length (columns s) \<le> length (columns s')"
    using assms(1) by (rule store_extends_length)
  then show "a < length (columns s')" using assms(2) by simp
qed

lemma store_extends_read:
  "store_extends s s' \<Longrightarrow> v_addr v < length (columns s) \<Longrightarrow> read_column s' v = read_column s v"
  by (simp add: read_column_def store_extends_nth)

lemma store_extends_valid:
  "store_extends s s' \<Longrightarrow> valid_view s v \<Longrightarrow> valid_view s' v"
  by (simp add: valid_view_def store_extends_nth)

lemma store_extends_project:
  assumes "store_extends s s'" and "valid_project s p"
  shows "project_of s' p = project_of s p" and "valid_project s' p"
proof -
  have m: "matrices s' = matrices s" using assms(1) by (simp add: store_extends_def)
  have b: "read_column s' (at_best_response_value p) = read_column s (at_best_response_value p)"
    using assms by (simp add: store_extends_read valid_project_def valid_view_def)
  have y: "map_option (read_column s') (at_train_Y p) = map_option (read_column s) (at_train_Y p)"
    using assms
    by (cases "at_train_Y p") (simp_all add: store_extends_read valid_project_def valid_view_def)
  show "project_of s' p = project_of s p"
    by (simp add: project_of_def m b y)
  show "valid_project s' p"
    using assms
    by (cases "at_train_Y p") (simp_all add: valid_project_def store_extends_valid)
qed

lemma on_store_steps_None:
  "continue_iterating_rel_tol_conditions_on s self (Some r) None
     = continue_iterating_rel_tol_conditions_on s self (Some r) (Some 1)"
  by (simp add: continue_iterating_rel_tol_conditions_on_def)

lemma should_continue_steps_None:
  "should_continue self (Some r) None = should_continue self (Some r) (Some 1)"
  by (simp add: should_continue_def continue_iterating_rel_tol_conditions_def)

lemma on_store_both_set:
  "continue_iterating_rel_tol_conditions_on s self (Some r) (Some k) =
     (if int (v_rows (at_best_response_value self)) \<ge> k then
        (case torch_cat_dim1_on s
                (slice_view (at_best_response_value self) (Some (- (k + 1))) (Some (- 1)))
                (slice_view (at_best_response_value self) (Some (- k)) None) of
           (Inl e, s1) \<Rightarrow> (Inl e, self, s1)
         | (Inr tmp_array, s1) \<Rightarrow>
             (let (diffs, s2) = np_diff_axis1_on s1 tmp_array;
                  (tmp_rel_diff, s3) =
                    np_divide_on s2 diffs
                      (slice_view (at_best_response_value self) (Some (- k)) None);
                  below_rel_tol = map (\<lambda>rel_dif. rel_dif < r) (read_column s3 tmp_rel_diff)
              in if int (length (filter (\<lambda>b. b) below_rel_tol)) = k
                 then (Inr False, self, s3) else (Inr True, self, s3)))
      else (Inr True, self, s))"
  unfolding continue_iterating_rel_tol_conditions_on_def by simp

lemma should_continue_both_set:
  "should_continue self (Some r) (Some k) =
     (if int (length (best_response_value self)) \<ge> k then
        (case torch_cat_dim1
                (py_slice (best_response_value self) (Some (- (k + 1))) (Some (- 1)))
                (py_slice (best_response_value self) (Some (- k)) None) of
           Inl e \<Rightarrow> Inl e
         | Inr tmp_array \<Rightarrow>
             if int (length (filter (\<lambda>b. b) (map (\<lambda>rel_dif. rel_dif < r)
                   (np_divide (np_diff_axis1 tmp_array)
                      (py_slice (best_response_value self) (Some (- k)) None))))) = k
             then Inr False else Inr True)
      else Inr True)"
  unfolding should_continue_def continue_iterating_both_set
  by (simp split: sum.split)

lemma on_store_run_both_set:
  fixes s :: "('a::{minus,inverse,ord}) store"
  assumes v: "valid_view s (at_best_response_value self)"
  shows "\<exists>s'. continue_iterating_rel_tol_conditions_on s self (Some r) (Some j)
                = (should_continue (project_of s self) (Some r) (Some j), self, s')
              \<and> store_extends s s'"
proof -
  define brv where "brv = at_best_response_value self"
  define xs where "xs = read_column s brv"
  have bxs: "best_response_value (project_of s self) = xs"
    by (simp add: project_of_def xs_def brv_def)
  have rows: "v_rows (at_best_response_value self) = length xs"
    using v by (simp add: xs_def brv_def length_read_column)
  have sl: "read_column s (slice_view brv a b) = py_slice xs a b" for a b
    using v by (simp add: xs_def brv_def read_slice_view)
  have addr: "v_addr (slice_view brv a b) < length (columns s)" for a b
    using v by (simp add: slice_view_def Let_def brv_def valid_view_def)
  define a where "a = slice_view brv (Some (- (j + 1))) (Some (- 1))"
  define b where "b = slice_view brv (Some (- j)) None"
  have ra: "py_slice xs (Some (- (j + 1))) (Some (- 1)) = read_column s a"
    by (simp only: a_def sl)
  have rb: "py_slice xs (Some (- j)) None = read_column s b"
    by (simp only: b_def sl)
  have pure: "should_continue (project_of s self) (Some r) (Some j) =
      (if int (length xs) \<ge> j then
        (case torch_cat_dim1 (read_column s a) (read_column s b) of
           Inl e \<Rightarrow> Inl e
         | Inr tmp_array \<Rightarrow>
             if int (length (filter (\<lambda>b. b) (map (\<lambda>rel_dif. rel_dif < r)
                   (np_divide (np_diff_axis1 tmp_array) (read_column s b))))) = j
             then Inr False else Inr True)
       else Inr True)"
    unfolding should_continue_both_set bxs ra rb by (rule refl)
  have onstore: "continue_iterating_rel_tol_conditions_on s self (Some r) (Some j) =
      (if int (length xs) \<ge> j then
        (case torch_cat_dim1_on s a b of
           (Inl e, s1) \<Rightarrow> (Inl e, self, s1)
         | (Inr tmp_array, s1) \<Rightarrow>
             (let (diffs, s2) = np_diff_axis1_on s1 tmp_array;
                  (tmp_rel_diff, s3) = np_divide_on s2 diffs b;
                  below_rel_tol = map (\<lambda>rel_dif. rel_dif < r) (read_column s3 tmp_rel_diff)
              in if int (length (filter (\<lambda>b. b) below_rel_tol)) = j
                 then (Inr False, self, s3) else (Inr True, self, s3)))
       else (Inr True, self, s))"
    unfolding on_store_both_set rows a_def b_def brv_def by (rule refl)
  show ?thesis
  proof (cases "int (length xs) \<ge> j")
    case False
    then show ?thesis by (simp add: pure onstore store_extends_refl)
  next
    case guard: True
    show ?thesis
    proof (cases "torch_cat_dim1 (read_column s a) (read_column s b)")
      case (Inl e)
      then show ?thesis
        using guard by (simp add: pure onstore torch_cat_dim1_on_def store_extends_refl)
    next
      case (Inr tmp)
      define s1 where "s1 = snd (alloc_two_columns s tmp)"
      define t where "t = fst (alloc_two_columns s tmp)"
      define s2 where "s2 = snd (alloc_column s1 (np_diff_axis1 tmp))"
      define diffs where "diffs = fst (alloc_column s1 (np_diff_axis1 tmp))"
      define q where "q = np_divide (np_diff_axis1 tmp) (read_column s b)"
      define s3 where "s3 = snd (alloc_column s2 q)"
      define res where "res = fst (alloc_column s2 q)"
      have cat: "torch_cat_dim1_on s a b = (Inr t, s1)"
        by (simp add: torch_cat_dim1_on_def Inr s1_def t_def split: prod.split)
      have tmp_at: "two_columns s1 ! t = tmp"
        by (simp add: s1_def t_def two_columns_alloc_new)
      have diff: "np_diff_axis1_on s1 t = (diffs, s2)"
        by (simp add: np_diff_axis1_on_def tmp_at diffs_def s2_def)
      have e1: "store_extends s s1"
        by (simp add: s1_def store_extends_alloc_two_columns)
      have e2: "store_extends s1 s2"
        by (simp add: s2_def store_extends_alloc_column)
      have e3: "store_extends s2 s3"
        by (simp add: s3_def store_extends_alloc_column)
      have e12: "store_extends s s2" using e1 e2 by (rule store_extends_trans)
      have e13: "store_extends s s3" using e12 e3 by (rule store_extends_trans)
      have rdiffs: "read_column s2 diffs = np_diff_axis1 tmp"
        by (simp add: s2_def diffs_def read_column_alloc_column_new)
      have rb2: "read_column s2 b = read_column s b"
        using e12 addr by (simp add: store_extends_read b_def)
      have divide: "np_divide_on s2 diffs b = (res, s3)"
        by (simp add: np_divide_on_def rdiffs rb2 q_def [symmetric] res_def s3_def)
      have rres: "read_column s3 res = q"
        by (simp add: s3_def res_def read_column_alloc_column_new)
      have "continue_iterating_rel_tol_conditions_on s self (Some r) (Some j) =
          (if int (length (filter (\<lambda>b. b) (map (\<lambda>rel_dif. rel_dif < r) q))) = j
           then (Inr False, self, s3) else (Inr True, self, s3))"
        using guard by (simp add: onstore cat diff divide rres)
      moreover have "should_continue (project_of s self) (Some r) (Some j) =
          (if int (length (filter (\<lambda>b. b) (map (\<lambda>rel_dif. rel_dif < r) q))) = j
           then Inr False else Inr True)"
        using guard by (simp add: pure Inr q_def)
      ultimately show ?thesis using e13 by auto
    qed
  qed
qed

lemma on_store_run:
  fixes s :: "('a::{minus,inverse,ord}) store"
  assumes v: "valid_view s (at_best_response_value self)"
  shows "\<exists>s'. continue_iterating_rel_tol_conditions_on s self rel_tol k
                = (should_continue (project_of s self) rel_tol k, self, s')
              \<and> store_extends s s'"
proof (cases rel_tol)
  case None
  have "continue_iterating_rel_tol_conditions_on s self None k = (Inr True, self, s)"
    by (simp add: continue_iterating_rel_tol_conditions_on_def)
  then show ?thesis
    by (simp add: None should_continue_no_rel_tol store_extends_refl)
next
  case (Some r)
  show ?thesis
  proof (cases k)
    case None
    show ?thesis
      unfolding Some None on_store_steps_None should_continue_steps_None
      using v by (rule on_store_run_both_set)
  next
    case (Some j)
    show ?thesis
      unfolding \<open>rel_tol = Some r\<close> Some
      using v by (rule on_store_run_both_set)
  qed
qed

text \<open>
  C9. On a store in which the tensors of the instance lie, the check returns what the
  check on values returns for the instance read from the store; it leaves the instance
  unchanged and every storage that existed unchanged (it only adds the storages of the
  tensor and the two arrays it computes), so that the instance read from the store
  afterwards is the one read before, \<open>best_response_value\<close> and the training data
  included; and a second evaluation, on the store the first one leaves, returns the same
  result.
\<close>

theorem continue_iterating_frame_on_store:
  fixes s :: "('a::{minus,inverse,ord}) store"
  assumes "valid_project s self"
  shows "case continue_iterating_rel_tol_conditions_on s self rel_tol k of
           (result, self', s') \<Rightarrow>
             result = should_continue (project_of s self) rel_tol k
             \<and> self' = self
             \<and> store_extends s s'
             \<and> project_of s' self' = project_of s self
             \<and> fst (continue_iterating_rel_tol_conditions_on s' self' rel_tol k) = result"
proof -
  have v: "valid_view s (at_best_response_value self)"
    using assms by (simp add: valid_project_def)
  from on_store_run [OF v] obtain s' where
    run: "continue_iterating_rel_tol_conditions_on s self rel_tol k
            = (should_continue (project_of s self) rel_tol k, self, s')"
    and ext: "store_extends s s'"
    by blast
  have same: "project_of s' self = project_of s self"
    using ext assms by (rule store_extends_project)
  have v': "valid_view s' (at_best_response_value self)"
    using ext v by (rule store_extends_valid)
  from on_store_run [OF v'] obtain s'' where
    "continue_iterating_rel_tol_conditions_on s' self rel_tol k
       = (should_continue (project_of s' self) rel_tol k, self, s'')"
    by blast
  then have again: "fst (continue_iterating_rel_tol_conditions_on s' self rel_tol k)
      = should_continue (project_of s self) rel_tol k"
    by (simp add: same)
  show ?thesis
    by (simp add: run ext same again)
qed

theorem continue_iterating_frame_on_store_witness:
  "valid_project simple_store simple_project_on_store
   \<and> (case continue_iterating_rel_tol_conditions_on simple_store simple_project_on_store
              (Some 0.05) (Some 2) of
         (result, self', s') \<Rightarrow>
           result = Inr False
           \<and> self' = simple_project_on_store
           \<and> store_extends simple_store s'
           \<and> project_of s' self' = project_of simple_store simple_project_on_store
           \<and> fst (continue_iterating_rel_tol_conditions_on s' self' (Some 0.05) (Some 2))
               = Inr False)"
proof -
  have valid: "valid_project simple_store simple_project_on_store"
    by (simp add: valid_project_def valid_view_def simple_store_def simple_project_on_store_def)
  have series: "best_response_value (project_of simple_store simple_project_on_store)
      = [1, 1.01, 1.02]"
    by (simp add: project_of_def read_column_def simple_store_def simple_project_on_store_def)
  have stop: "should_continue (project_of simple_store simple_project_on_store)
      (Some 0.05) (Some 2) = Inr False"
    unfolding should_continue_both_set series
    by (simp add: py_slice_def slice_index_def torch_cat_dim1_def np_diff_axis1_def np_divide_def)
  from continue_iterating_frame_on_store [OF valid, of "Some 0.05" "Some 2"] valid stop
  show ?thesis
    by (simp split: prod.splits)
qed

section \<open>Properties of the best-response tracker and of the validation\<close>

lemma scan_max_spec:
  "\<exists>i \<le> length zs. scan_max b zs = (b # zs) ! i \<and> (\<forall>j<i. snd ((b # zs) ! j) < snd ((b # zs) ! i))
      \<and> (\<forall>z \<in> set (b # zs). snd z \<le> snd ((b # zs) ! i))"
proof (induction zs arbitrary: b)
  case Nil
  show ?case by simp
next
  case (Cons z zs)
  show ?case
  proof (cases "snd b < snd z")
    case True
    from Cons [of z] obtain i where i: "i \<le> length zs" "scan_max z zs = (z # zs) ! i"
      "\<forall>j<i. snd ((z # zs) ! j) < snd ((z # zs) ! i)" "\<forall>y \<in> set (z # zs). snd y \<le> snd ((z # zs) ! i)"
      by blast
    have zi: "snd z \<le> snd ((z # zs) ! i)" using i(4) by simp
    have "\<forall>j<Suc i. snd ((b # z # zs) ! j) < snd ((b # z # zs) ! Suc i)"
    proof (intro allI impI)
      fix j assume "j < Suc i"
      show "snd ((b # z # zs) ! j) < snd ((b # z # zs) ! Suc i)"
      proof (cases j)
        case 0
        then show ?thesis using True zi by simp
      next
        case (Suc j')
        then show ?thesis using i(3) \<open>j < Suc i\<close> by simp
      qed
    qed
    moreover have "\<forall>y \<in> set (b # z # zs). snd y \<le> snd ((b # z # zs) ! Suc i)"
      using i(4) True zi by auto
    ultimately show ?thesis
      using i(1,2) True by (intro exI [of _ "Suc i"]) simp
  next
    case False
    from Cons [of b] obtain i where i: "i \<le> length zs" "scan_max b zs = (b # zs) ! i"
      "\<forall>j<i. snd ((b # zs) ! j) < snd ((b # zs) ! i)" "\<forall>y \<in> set (b # zs). snd y \<le> snd ((b # zs) ! i)"
      by blast
    show ?thesis
    proof (cases i)
      case 0
      then show ?thesis using i False by (intro exI [of _ 0]) auto
    next
      case (Suc i')
      have bi: "snd b < snd ((b # zs) ! i)" using i(3) Suc by auto
      have "\<forall>j<Suc i. snd ((b # z # zs) ! j) < snd ((b # z # zs) ! Suc i)"
      proof (intro allI impI)
        fix j assume j: "j < Suc i"
        show "snd ((b # z # zs) ! j) < snd ((b # z # zs) ! Suc i)"
        proof (cases j)
          case 0
          then show ?thesis using bi Suc by simp
        next
          case (Suc j')
          note j' = this
          show ?thesis
          proof (cases j')
            case 0
            then show ?thesis using j' bi False \<open>i = Suc i'\<close> by simp
          next
            case (Suc j'')
            then show ?thesis using j' i(3) j \<open>i = Suc i'\<close> by auto
          qed
        qed
      qed
      moreover have "\<forall>y \<in> set (b # z # zs). snd y \<le> snd ((b # z # zs) ! Suc i)"
        using i(4) False bi Suc by auto
      ultimately show ?thesis
        using i(1,2) False Suc by (intro exI [of _ "Suc i"]) simp
    qed
  qed
qed


text \<open>
  C3. On a non-empty set of observations the tracker returns the maximum of the
  responses together with the covariate row at the same index, and that index is the
  first one at which the maximum occurs: every earlier response is strictly smaller.
\<close>

theorem find_max_response_value_first_maximum:
  fixes obs_Y :: "('a::linorder) list"
  assumes len: "length obs_X = length obs_Y" and ne: "obs_Y \<noteq> []"
  shows "\<exists>i<length obs_Y.
           find_max_response_value obs_X obs_Y = Inr (obs_X ! i, obs_Y ! i)
           \<and> obs_Y ! i = Max (set obs_Y)
           \<and> (\<forall>j<i. obs_Y ! j < obs_Y ! i)"
proof -
  define zs where "zs = zip obs_X obs_Y"
  have lz: "length zs = length obs_Y" using len by (simp add: zs_def)
  then obtain b rest where zs: "zs = b # rest" using ne by (cases zs) auto
  have nth_zs: "zs ! j = (obs_X ! j, obs_Y ! j)" if "j < length obs_Y" for j
    using that len by (simp add: zs_def)
  from scan_max_spec [of rest b] obtain i where i: "i \<le> length rest"
    and res: "scan_max b rest = zs ! i"
    and first: "\<forall>j<i. snd (zs ! j) < snd (zs ! i)"
    and top: "\<forall>z \<in> set zs. snd z \<le> snd (zs ! i)"
    unfolding zs by blast
  have il: "i < length obs_Y" using i lz zs by simp
  have "find_max_response_value obs_X obs_Y = Inr (scan_max b rest)"
    using zs by (simp add: find_max_response_value_def zs_def)
  then have r1: "find_max_response_value obs_X obs_Y = Inr (obs_X ! i, obs_Y ! i)"
    using res il by (simp add: nth_zs)
  have upper: "y \<le> obs_Y ! i" if "y \<in> set obs_Y" for y
  proof -
    from that obtain j where j: "j < length obs_Y" "y = obs_Y ! j"
      by (auto simp: in_set_conv_nth)
    then have "zs ! j \<in> set zs" using lz by simp
    with top have "snd (zs ! j) \<le> snd (zs ! i)" by blast
    then show ?thesis using j il by (simp add: nth_zs)
  qed
  have "Max (set obs_Y) = obs_Y ! i"
    using upper il by (intro Max_eqI) simp_all
  then have r2: "obs_Y ! i = Max (set obs_Y)" by simp
  have r3: "\<forall>j<i. obs_Y ! j < obs_Y ! i"
  proof (intro allI impI)
    fix j assume "j < i"
    then have "snd (zs ! j) < snd (zs ! i)" using first by blast
    then show "obs_Y ! j < obs_Y ! i" using \<open>j < i\<close> il by (simp add: nth_zs)
  qed
  show ?thesis using il r1 r2 r3 by blast
qed

theorem find_max_response_value_first_maximum_witness:
  "length [[1], [2], [3], [4 :: int]] = length [5, 7, 7, 1 :: int] \<and> [5, 7, 7, 1 :: int] \<noteq> []
   \<and> (\<exists>i<length [5, 7, 7, 1 :: int].
         find_max_response_value [[1], [2], [3], [4 :: int]] [5, 7, 7, 1 :: int]
           = Inr ([[1], [2], [3], [4]] ! i, [5, 7, 7, 1] ! i)
         \<and> [5, 7, 7, 1 :: int] ! i = Max (set [5, 7, 7, 1])
         \<and> (\<forall>j<i. [5, 7, 7, 1 :: int] ! j < [5, 7, 7, 1] ! i))"
  using find_max_response_value_first_maximum [of "[[1], [2], [3], [4 :: int]]" "[5, 7, 7, 1 :: int]"]
  by simp

text \<open>
  The two cases of the unit test of \<open>find_max_response_value\<close>: the maximum at the
  fourth of four observations, and the full row of three covariates at the second of
  three.
\<close>

lemma find_max_response_value_unit_test:
  "find_max_response_value [[- 1], [- 1.1], [- 0.5], [1 :: real]] [0.2, 0.15, 0.5, 2 :: real]
     = Inr ([1], 2)"
  by (simp add: find_max_response_value_def)

lemma find_max_response_value_multivariate_test:
  "find_max_response_value [[0.5, 12.5, - 2], [0, 12, - 2.5], [1.7, 13.7, - 0.8 :: real]]
       [1.1, 5.5, 0.1 :: real]
     = Inr ([0, 12, - 2.5], 5.5)"
  by (simp add: find_max_response_value_def)

lemma isinstance_float_int_simps:
  "isinstance_float_int (PyFloat x)" "isinstance_float_int (PyInt n)"
  "isinstance_float_int (PyBool b)"
  by (simp_all add: isinstance_float_int_def)

lemma validate_covars_list:
  "validate_covars (PyList entries) = Inr True \<longleftrightarrow>
     (\<forall>entry\<in>set entries. \<exists>els. entry = PyTuple els \<and> (\<forall>el\<in>set els. isinstance_float_int el))"
proof -
  have tup: "isinstance_tuple v \<longleftrightarrow> (\<exists>els. v = PyTuple els)" for v :: "'a pyval"
    by (cases v) (simp_all add: isinstance_tuple_def)
  have tuples: "list_all isinstance_tuple entries \<longleftrightarrow>
      (\<forall>entry\<in>set entries. \<exists>els. entry = PyTuple els)"
    by (simp add: list_all_iff tup)
  have elements: "list_all (\<lambda>entry. list_all isinstance_float_int (tuple_items entry)) entries
      \<longleftrightarrow> (\<forall>entry\<in>set entries. \<forall>el\<in>set (tuple_items entry). isinstance_float_int el)"
    by (simp add: list_all_iff)
  have items: "tuple_items (PyTuple els) = els" for els :: "'a pyval list"
    by (simp add: tuple_items_def)
  have "validate_covars (PyList entries) = Inr True \<longleftrightarrow>
      (\<forall>entry\<in>set entries. \<exists>els. entry = PyTuple els)
      \<and> (\<forall>entry\<in>set entries. \<forall>el\<in>set (tuple_items entry). isinstance_float_int el)"
    by (simp add: validate_covars_def tuples elements)
  also have "\<dots> \<longleftrightarrow> (\<forall>entry\<in>set entries. \<exists>els. entry = PyTuple els
      \<and> (\<forall>el\<in>set els. isinstance_float_int el))"
    by (metis items)
  finally show ?thesis .
qed

text \<open>
  C10. The validation returns \<open>True\<close> for every list of tuples whose elements are all
  floats or ints: for the empty list, and for tuples of any length, so a dimension with
  fewer or more than the three entries (initial guess, lower bound, upper bound) passes.
\<close>

theorem validate_covars_accepts_any_length:
  fixes entries :: "'a pyval list" and x y z :: 'a
  shows
  "((\<forall>entry\<in>set entries. \<exists>els. entry = PyTuple els
        \<and> (\<forall>el\<in>set els. (\<exists>x. el = PyFloat x) \<or> (\<exists>n. el = PyInt n)))
      \<longrightarrow> validate_covars (PyList entries) = Inr True)
   \<and> validate_covars (PyList [] :: 'a pyval) = Inr True
   \<and> validate_covars (PyList [PyTuple [PyFloat x], PyTuple [PyInt a, PyFloat y, PyFloat z, PyInt b],
        PyTuple []]) = Inr True"
proof (intro conjI impI)
  assume "\<forall>entry\<in>set entries. \<exists>els. entry = PyTuple els
        \<and> (\<forall>el\<in>set els. (\<exists>x. el = PyFloat x) \<or> (\<exists>n. el = PyInt n))"
  then have "\<forall>entry\<in>set entries. \<exists>els. entry = PyTuple els
        \<and> (\<forall>el\<in>set els. isinstance_float_int el)"
    by (fastforce simp: isinstance_float_int_simps)
  then show "validate_covars (PyList entries) = Inr True"
    by (simp add: validate_covars_list)
next
  show "validate_covars (PyList [] :: 'a pyval) = Inr True"
    by (simp add: validate_covars_list)
next
  show "validate_covars (PyList [PyTuple [PyFloat x], PyTuple [PyInt a, PyFloat y, PyFloat z, PyInt b],
        PyTuple []]) = Inr True"
    by (simp add: validate_covars_list isinstance_float_int_simps)
qed

theorem validate_covars_accepts_any_length_witness:
  "validate_covars (PyList [PyTuple [PyFloat (2 :: real), PyInt 0]]) = Inr True
   \<and> validate_covars (PyList [] :: real pyval) = Inr True"
  using validate_covars_accepts_any_length
      [where entries = "[PyTuple [PyFloat (2 :: real), PyInt 0]]"
         and x = 0 and y = 0 and z = 0 and a = 0 and b = 0]
  by simp

text \<open>
  C8, counterexample. The validation accepts the dimension \<open>(5.0, 0.0, 1.0)\<close>, whose
  initial guess lies above its upper bound.
\<close>

theorem validate_covars_guess_outside_bounds:
  "validate_covars (PyList [PyTuple [PyFloat (5 :: real), PyFloat 0, PyFloat 1]]) = Inr True
   \<and> \<not> ((0 :: real) \<le> 5 \<and> (5 :: real) \<le> 1)"
  by (simp add: validate_covars_list isinstance_float_int_simps)

text \<open>
  C8, as amended. What the validation guarantees of an accepted \<open>covars\<close> is its
  shape: a list of tuples whose elements are all floats or ints. It compares no element
  with another, so any three floats are an accepted dimension.
\<close>

theorem validate_covars_accepted_shape:
  fixes c :: "'a pyval" and guess lower upper :: 'a
  shows
  "(validate_covars c = Inr ok \<longrightarrow>
      ok \<and> (\<exists>entries. c = PyList entries
              \<and> (\<forall>entry\<in>set entries. \<exists>els. entry = PyTuple els
                    \<and> (\<forall>el\<in>set els. isinstance_float_int el))))
   \<and> validate_covars (PyList [PyTuple [PyFloat guess, PyFloat lower, PyFloat upper]]) = Inr True"
proof (intro conjI impI)
  assume acc: "validate_covars c = Inr ok"
  then obtain entries where c: "c = PyList entries"
    by (cases c) (simp_all add: validate_covars_def)
  from acc have ok: "ok"
    by (auto simp: c validate_covars_def split: if_splits)
  with acc have "validate_covars (PyList entries) = Inr True" by (simp add: c)
  then have "\<forall>entry\<in>set entries. \<exists>els. entry = PyTuple els
                    \<and> (\<forall>el\<in>set els. isinstance_float_int el)"
    by (simp add: validate_covars_list)
  with c show "\<exists>entries. c = PyList entries
              \<and> (\<forall>entry\<in>set entries. \<exists>els. entry = PyTuple els
                    \<and> (\<forall>el\<in>set els. isinstance_float_int el))"
    by blast
  show ok by (rule ok)
next
  show "validate_covars (PyList [PyTuple [PyFloat guess, PyFloat lower, PyFloat upper]]) = Inr True"
    by (simp add: validate_covars_list isinstance_float_int_simps)
qed

theorem validate_covars_accepted_shape_witness:
  "validate_covars (PyList [PyTuple [PyFloat (0.5 :: real), PyInt 0, PyInt 1]]) = Inr True
   \<and> (\<exists>entries. PyList [PyTuple [PyFloat (0.5 :: real), PyInt 0, PyInt 1]] = PyList entries
         \<and> (\<forall>entry\<in>set entries. \<exists>els. entry = PyTuple els
               \<and> (\<forall>el\<in>set els. isinstance_float_int el)))"
  using validate_covars_accepted_shape
      [where c = "PyList [PyTuple [PyFloat (0.5 :: real), PyInt 0, PyInt 1]]" and ok = True]
  by (simp add: validate_covars_list isinstance_float_int_simps)

section \<open>Properties of construction and model set-up\<close>

lemma set_GP_model_unknown:
  assumes "model_type self \<noteq> ''SingleTaskGP''" and "model_type self \<noteq> ''Custom''"
  shows "set_GP_model single_task_gp custom_gp self =
           (Inl (Exception (unknown_model_type_message (model_type self))), self)"
  using assms by (simp add: set_GP_model_def)

text \<open>
  C7, counterexample. \<open>CreativeProject(covars=[(0.5, 0, 1)], model="Foo")\<close> is
  constructed without an error and carries the name \<open>Foo\<close>; only the later call of
  \<open>_set_GP_model\<close> on that instance raises, and what it raises is a plain
  \<open>Exception\<close>.
\<close>

theorem unknown_model_accepted_at_construction:
  "CreativeProject_init (Inr ([[0.5]], [[0], [1]])) (Inr (None, None)) (Inr ([], []))
      (PyList [PyTuple [PyFloat 0.5, PyInt 0, PyInt 1]]) ''Foo'' ''EI'' \<lparr>kw_nu = None\<rparr>
     = Inr (simple_project\<lparr>model_type := ''Foo''\<rparr>)
   \<and> set_GP_model (Inr ((), (), ())) (Inr ((), (), ())) (simple_project\<lparr>model_type := ''Foo''\<rparr>)
     = (Inl (Exception (unknown_model_type_message ''Foo'')),
        simple_project\<lparr>model_type := ''Foo''\<rparr>)"
  by (simp add: CreativeProject_init_def simple_project_def set_GP_model_def)

text \<open>
  C7, as amended. Construction does not look at the model name: with any name it
  succeeds or fails exactly as with \<open>SingleTaskGP\<close>, and the instance it builds differs
  in the stored name only. A name outside \<open>SingleTaskGP\<close> and \<open>Custom\<close> is rejected when
  \<open>_set_GP_model\<close> is called, by an \<open>Exception\<close> that names it, and the instance is
  left as it was.
\<close>

theorem unknown_model_rejected_at_set_GP_model:
  fixes self :: "('a, 'm) creative_project"
  shows "(CreativeProject_init from_covars training_data best_response covars m acq_func kwargs
            :: error + ('a, 'm) creative_project)
           = map_sum id (\<lambda>s. s\<lparr>model_type := m\<rparr>)
               (CreativeProject_init from_covars training_data best_response covars
                  ''SingleTaskGP'' acq_func kwargs)
         \<and> (CreativeProject_init from_covars training_data best_response covars m acq_func kwargs
               = Inr self \<longrightarrow> model_type self = m)
         \<and> (model_type self \<noteq> ''SingleTaskGP'' \<and> model_type self \<noteq> ''Custom'' \<longrightarrow>
               set_GP_model single_task_gp custom_gp self
                 = (Inl (Exception (unknown_model_type_message (model_type self))), self))"
proof (intro conjI impI)
  show "(CreativeProject_init from_covars training_data best_response covars m acq_func kwargs
            :: error + ('a, 'm) creative_project)
           = map_sum id (\<lambda>s. s\<lparr>model_type := m\<rparr>)
               (CreativeProject_init from_covars training_data best_response covars
                  ''SingleTaskGP'' acq_func kwargs)"
    by (simp add: CreativeProject_init_def split: sum.split prod.split)
next
  assume "CreativeProject_init from_covars training_data best_response covars m acq_func kwargs
            = Inr self"
  then show "model_type self = m"
    by (auto simp: CreativeProject_init_def split: sum.splits prod.splits)
next
  assume "model_type self \<noteq> ''SingleTaskGP'' \<and> model_type self \<noteq> ''Custom''"
  then show "set_GP_model single_task_gp custom_gp self
      = (Inl (Exception (unknown_model_type_message (model_type self))), self)"
    by (simp add: set_GP_model_unknown)
qed

theorem unknown_model_rejected_at_set_GP_model_witness:
  "CreativeProject_init (Inr ([[0.5]], [[0], [1]])) (Inr (None, None)) (Inr ([], []))
      (PyList [PyTuple [PyFloat 0.5, PyInt 0, PyInt 1]]) ''Matern'' ''EI'' \<lparr>kw_nu = None\<rparr>
     = Inr (simple_project\<lparr>model_type := ''Matern''\<rparr>)
   \<and> model_type (simple_project\<lparr>model_type := ''Matern''\<rparr>) = ''Matern''
   \<and> model_type (simple_project\<lparr>model_type := ''Matern''\<rparr>) \<noteq> ''SingleTaskGP''
   \<and> model_type (simple_project\<lparr>model_type := ''Matern''\<rparr>) \<noteq> ''Custom''
   \<and> set_GP_model (Inr ((), (), ())) (Inr ((), (), ())) (simple_project\<lparr>model_type := ''Matern''\<rparr>)
     = (Inl (Exception (unknown_model_type_message ''Matern'')),
        simple_project\<lparr>model_type := ''Matern''\<rparr>)"
proof -
  have init: "CreativeProject_init (Inr ([[0.5]], [[0], [1]])) (Inr (None, None)) (Inr ([], []))
      (PyList [PyTuple [PyFloat 0.5, PyInt 0, PyInt 1]]) ''Matern'' ''EI'' \<lparr>kw_nu = None\<rparr>
     = Inr (simple_project\<lparr>model_type := ''Matern''\<rparr>)"
    by (simp add: CreativeProject_init_def simple_project_def)
  note inst = unknown_model_rejected_at_set_GP_model
      [where from_covars = "Inr ([[0.5]], [[0], [1]])" and training_data = "Inr (None, None)"
         and best_response = "Inr ([], [])"
         and covars = "PyList [PyTuple [PyFloat 0.5, PyInt 0, PyInt 1]]"
         and m = "''Matern''" and acq_func = "''EI''" and kwargs = "\<lparr>kw_nu = None\<rparr>"
         and self = "simple_project\<lparr>model_type := ''Matern''\<rparr>"
         and single_task_gp = "Inr ((), (), ())" and custom_gp = "Inr ((), (), ())"]
  from inst init show ?thesis by simp
qed

end
